theory Spec2Isabelle
  imports Main "HOL-Library.Sublist" "HOL-Library.AList"
begin

section \<open>Python values\<close>

text \<open>
  A Python \<open>str\<close> is a sequence of Unicode code points, so it is modelled as a list of
  natural numbers (\<open>len\<close>, \<open>strip\<close>, \<open>replace\<close> and \<open>splitlines\<close> all count code points,
  not bytes). \<open>py\<close> turns an ASCII literal of the source into that representation.
\<close>

type_synonym pystr = "nat list"

definition py :: "string \<Rightarrow> pystr" where
  "py s = map of_char s"

text \<open>
  The values \<open>json.loads\<close> produces, and the values a request body holds. The payload of
  \<open>JFloat\<close> is a type parameter: what \<open>float()\<close> makes of a lexeme, and what \<open>str()\<close>
  makes of a float, are IEEE arithmetic and stay parameters of the model. A \<open>dict\<close> is an
  association list in insertion order with distinct keys.
\<close>

datatype 'f json =
    JNull
  | JBool bool
  | JInt int
  | JFloat 'f
  | JStr pystr
  | JArr "'f json list"
  | JObj "(pystr \<times> 'f json) list"

text \<open>The exceptions that the modelled code raises or lets through.\<close>

datatype exn =
    ValueError string
  | AttributeError
  | TypeError
  | KeyError
  | IndexError
  | JSONDecodeError
  | HTTPError
  | HTTPException nat string

subsection \<open>String methods\<close>

definition startswith :: "pystr \<Rightarrow> pystr \<Rightarrow> bool" where
  "startswith s p = (take (length p) s = p)"

definition endswith :: "pystr \<Rightarrow> pystr \<Rightarrow> bool" where
  "endswith s p = (length p \<le> length s \<and> drop (length s - length p) s = p)"

text \<open>
  \<open>str.isspace\<close> of one code point: the Unicode white space of CPython
  (\<open>_PyUnicode_IsWhitespace\<close>); \<open>str.strip()\<close> removes these from both ends.
\<close>

definition isspace :: "nat \<Rightarrow> bool" where
  "isspace c = ((9 \<le> c \<and> c \<le> 13) \<or> (28 \<le> c \<and> c \<le> 32) \<or> c = 133 \<or> c = 160 \<or> c = 5760
      \<or> (8192 \<le> c \<and> c \<le> 8202) \<or> c = 8232 \<or> c = 8233 \<or> c = 8239 \<or> c = 8287 \<or> c = 12288)"

definition strip :: "pystr \<Rightarrow> pystr" where
  "strip s = rev (dropWhile isspace (rev (dropWhile isspace s)))"

text \<open>
  \<open>str.splitlines()\<close>: the line boundaries are \<open>\n\<close>, \<open>\r\<close>, \<open>\r\n\<close>, \<open>\v\<close>, \<open>\f\<close>,
  \<open>\x1c\<close>, \<open>\x1d\<close>, \<open>\x1e\<close>, \<open>\x85\<close>, U+2028 and U+2029; the boundaries are dropped, and a
  text that ends with a boundary has no empty last line.
\<close>

definition is_linebreak :: "nat \<Rightarrow> bool" where
  "is_linebreak c = ((10 \<le> c \<and> c \<le> 13) \<or> (28 \<le> c \<and> c \<le> 30) \<or> c = 133 \<or> c = 8232 \<or> c = 8233)"

fun splitlines_from :: "pystr \<Rightarrow> pystr \<Rightarrow> pystr list" where
  "splitlines_from cur [] = (if cur = [] then [] else [cur])"
| "splitlines_from cur (c # cs) =
     (if is_linebreak c
      then (if c = 13 \<and> cs \<noteq> [] \<and> hd cs = 10
            then cur # splitlines_from [] (tl cs)
            else cur # splitlines_from [] cs)
      else splitlines_from (cur @ [c]) cs)"

definition splitlines :: "pystr \<Rightarrow> pystr list" where
  "splitlines s = splitlines_from [] s"

fun join :: "pystr \<Rightarrow> pystr list \<Rightarrow> pystr" where
  "join sep [] = []"
| "join sep [x] = x"
| "join sep (x # y # ys) = x @ sep @ join sep (y # ys)"

text \<open>\<open>s.replace(a, b)\<close> for one-character \<open>a\<close> and \<open>b\<close>.\<close>

definition replace_char :: "nat \<Rightarrow> nat \<Rightarrow> pystr \<Rightarrow> pystr" where
  "replace_char a b s = map (\<lambda>c. if c = a then b else c) s"

text \<open>\<open>s.find(ch)\<close> for a one-character \<open>ch\<close>; \<open>None\<close> stands for the result \<open>-1\<close>.\<close>

fun find_char :: "nat \<Rightarrow> pystr \<Rightarrow> nat option" where
  "find_char ch [] = None"
| "find_char ch (c # cs) = (if c = ch then Some 0 else map_option Suc (find_char ch cs))"

text \<open>The slice \<open>s[a:b]\<close> for \<open>0 \<le> a \<le> b\<close>.\<close>

definition slice :: "pystr \<Rightarrow> nat \<Rightarrow> nat \<Rightarrow> pystr" where
  "slice s a b = take (b - a) (drop a s)"

section \<open>Text normalizer\<close>

text \<open>
  \<open>_strip_code_fences\<close> (main.py, lines 97-110). The fence marker is three backquotes
  (code point 96). The function works on lines: the first line goes if it starts with
  the marker, and the last line goes if, stripped, it starts with the marker.
\<close>

definition fence :: pystr where
  "fence = [96, 96, 96]"

definition strip_code_fences :: "pystr \<Rightarrow> pystr" where
  "strip_code_fences text0 =
     (let text = strip text0 in
      if startswith text fence then
        (let lines = splitlines text;
             lines = (if lines \<noteq> [] \<and> startswith (hd lines) fence then tl lines else lines);
             lines = (if lines \<noteq> [] \<and> startswith (strip (last lines)) fence
                      then butlast lines else lines)
         in strip (join [10] lines))
      else text)"

section \<open>Multi-strategy JSON extractor\<close>

text \<open>
  \<open>re.search(r"\{.*\}", text, flags=re.DOTALL)\<close>: the match starts at the leftmost
  position from which the pattern can match, and \<open>.*\<close> is greedy, so from an opening
  brace it runs to the last closing brace behind it. \<open>upto_last ch s\<close> is the longest
  prefix of \<open>s\<close> that ends with \<open>ch\<close>.
\<close>

definition upto_last :: "nat \<Rightarrow> pystr \<Rightarrow> pystr option" where
  "upto_last ch s =
     (if ch \<in> set s then Some (rev (dropWhile (\<lambda>c. c \<noteq> ch) (rev s))) else None)"

fun re_search_braces :: "pystr \<Rightarrow> pystr option" where
  "re_search_braces [] = None"
| "re_search_braces (c # cs) =
     (if c = 123
      then (case upto_last 125 cs of
              Some m \<Rightarrow> Some (c # m)
            | None \<Rightarrow> re_search_braces cs)
      else re_search_braces cs)"

text \<open>
  The loop of the third strategy (main.py, lines 147-157), over \<open>enumerate(text[start:],
  start=start)\<close>: \<open>i\<close> is the index of \<open>ch\<close> in \<open>text\<close>. Where the depth returns to zero the
  candidate \<open>text[start:i + 1]\<close> is decoded; the function returns on success and leaves
  the loop (\<open>break\<close>) on failure, so nothing behind the first balanced span is tried.
  \<open>None\<close> is the loop ending without a \<open>return\<close>.
\<close>

fun balanced_loop ::
  "(pystr \<Rightarrow> 'v option) \<Rightarrow> pystr \<Rightarrow> nat \<Rightarrow> int \<Rightarrow> nat \<Rightarrow> pystr \<Rightarrow> 'v option" where
  "balanced_loop loads text start depth i [] = None"
| "balanced_loop loads text start depth i (ch # rest) =
     (if ch = 123 then balanced_loop loads text start (depth + 1) (i + 1) rest
      else if ch = 125 then
        (if depth - 1 = 0 then loads (slice text start (i + 1))
         else balanced_loop loads text start (depth - 1) (i + 1) rest)
      else balanced_loop loads text start depth (i + 1) rest)"

text \<open>
  \<open>safe_json_from_text\<close> (main.py, lines 113-159). \<open>loads\<close> stands for \<open>json.loads\<close>,
  with \<open>None\<close> for any exception it raises (each call sits in \<open>try ... except Exception\<close>).
  The three replaced characters are U+201C, U+201D (to \<open>"\<close>) and U+2019 (to \<open>'\<close>).
\<close>

definition safe_json_from_text :: "(pystr \<Rightarrow> 'v option) \<Rightarrow> pystr option \<Rightarrow> exn + 'v" where
  "safe_json_from_text loads text0 =
     (case text0 of
        None \<Rightarrow> Inl (ValueError ''Empty model response'')
      | Some t \<Rightarrow>
          (let text = strip_code_fences t;
               text = replace_char 8217 39 (replace_char 8221 34 (replace_char 8220 34 text))
           in case loads text of
                Some v \<Rightarrow> Inr v
              | None \<Rightarrow>
                  (case (case re_search_braces text of
                           None \<Rightarrow> None
                         | Some candidate \<Rightarrow> loads candidate) of
                     Some v \<Rightarrow> Inr v
                   | None \<Rightarrow>
                       (case (case find_char 123 text of
                                None \<Rightarrow> None
                              | Some start \<Rightarrow>
                                  balanced_loop loads text start 0 start (drop start text)) of
                          Some v \<Rightarrow> Inr v
                        | None \<Rightarrow>
                            Inl (ValueError ''Could not parse JSON from model response'')))))"

text \<open>The text the strategies work on: the first two statements of the function body.\<close>

definition preprocess :: "pystr \<Rightarrow> pystr" where
  "preprocess t =
     replace_char 8217 39 (replace_char 8221 34 (replace_char 8220 34 (strip_code_fences t)))"

subsection \<open>The strategies as the specification words them\<close>

text \<open>
  The specification describes the extractor as an ordered sequence of strategies, each
  from a text to an optional value, of which the first success wins. The second strategy
  decodes the substring from the first \<open>{\<close> to the last \<open>}\<close>. The third decodes the first
  balanced span: from the first \<open>{\<close>, the shortest stretch in which the closing braces
  have caught up with the opening ones; no later span is tried.
\<close>

fun first_success :: "('a \<Rightarrow> 'b option) list \<Rightarrow> 'a \<Rightarrow> 'b option" where
  "first_success [] x = None"
| "first_success (f # fs) x = (case f x of Some v \<Rightarrow> Some v | None \<Rightarrow> first_success fs x)"

definition spec_first_to_last_brace :: "pystr \<Rightarrow> pystr option" where
  "spec_first_to_last_brace x =
     (let from_first = dropWhile (\<lambda>c. c \<noteq> 123) x;
          to_last = rev (dropWhile (\<lambda>c. c \<noteq> 125) (rev from_first))
      in if to_last = [] then None else Some to_last)"

definition brace_depth :: "pystr \<Rightarrow> int" where
  "brace_depth p = int (count_list p 123) - int (count_list p 125)"

definition spec_first_balanced_span :: "pystr \<Rightarrow> pystr option" where
  "spec_first_balanced_span x =
     (let from_first = dropWhile (\<lambda>c. c \<noteq> 123) x
      in case filter (\<lambda>n. brace_depth (take n from_first) = 0) [1..<Suc (length from_first)] of
           [] \<Rightarrow> None
         | n # _ \<Rightarrow> Some (take n from_first))"

definition spec_strategies :: "(pystr \<Rightarrow> 'v option) \<Rightarrow> (pystr \<Rightarrow> 'v option) list" where
  "spec_strategies loads =
     [loads,
      \<lambda>x. case spec_first_to_last_brace x of None \<Rightarrow> None | Some c \<Rightarrow> loads c,
      \<lambda>x. case spec_first_balanced_span x of None \<Rightarrow> None | Some c \<Rightarrow> loads c]"

section \<open>The decoder behind the extractor\<close>

text \<open>
  \<open>json.loads\<close> belongs to Python's standard library, not to this repository. The
  properties of the extractor below are proved for every decoder \<open>loads\<close>. To run the
  extractor on concrete texts, \<open>json_loads\<close> follows the decoder of the library
  (\<open>json.decoder\<close>, \<open>json.scanner\<close>, default arguments): white space is space, tab, line
  feed and carriage return; strings are strict (no raw control character) with the
  escapes of JSON and joined surrogate pairs; numbers follow
  \<open>(-?(?:0|[1-9]\d*))(\.\d+)?([eE][-+]?\d+)?\<close>; \<open>NaN\<close>, \<open>Infinity\<close> and \<open>-Infinity\<close> are
  accepted; a repeated key keeps its first place and its last value; anything behind the
  value but white space is an error. \<open>parse_float\<close> is the argument of that name of
  \<open>json.loads\<close> (\<open>float\<close> by default); the recursion limit and the limit on the digits
  of an integer are not modelled.
\<close>

definition json_ws :: "nat \<Rightarrow> bool" where
  "json_ws c = (c = 32 \<or> c = 9 \<or> c = 10 \<or> c = 13)"

definition skip_ws :: "pystr \<Rightarrow> pystr" where
  "skip_ws s = dropWhile json_ws s"

definition is_digit :: "nat \<Rightarrow> bool" where
  "is_digit c = (48 \<le> c \<and> c \<le> 57)"

definition hexval :: "nat \<Rightarrow> nat option" where
  "hexval c =
     (if 48 \<le> c \<and> c \<le> 57 then Some (c - 48)
      else if 97 \<le> c \<and> c \<le> 102 then Some (c - 87)
      else if 65 \<le> c \<and> c \<le> 70 then Some (c - 55)
      else None)"

definition hex4 :: "nat \<Rightarrow> nat \<Rightarrow> nat \<Rightarrow> nat \<Rightarrow> nat option" where
  "hex4 a b c d =
     (case (hexval a, hexval b, hexval c, hexval d) of
        (Some x, Some y, Some z, Some w) \<Rightarrow> Some (((x * 16 + y) * 16 + z) * 16 + w)
      | _ \<Rightarrow> None)"

definition unescape :: "nat \<Rightarrow> nat option" where
  "unescape e =
     (if e = 34 then Some 34 else if e = 92 then Some 92 else if e = 47 then Some 47
      else if e = 98 then Some 8 else if e = 102 then Some 12 else if e = 110 then Some 10
      else if e = 114 then Some 13 else if e = 116 then Some 9 else None)"

definition cons_char :: "nat \<Rightarrow> (pystr \<times> pystr) option \<Rightarrow> (pystr \<times> pystr) option" where
  "cons_char c r = (case r of None \<Rightarrow> None | Some (str, rest) \<Rightarrow> Some (c # str, rest))"

text \<open>
  \<open>scanstring\<close> reads a string behind its opening quote and returns its value and the
  text behind the closing quote.
\<close>

fun scanstring :: "pystr \<Rightarrow> (pystr \<times> pystr) option" where
  "scanstring [] = None"
| "scanstring (c # cs) =
     (if c = 34 then Some ([], cs)
      else if c = 92 then
        (case cs of
           [] \<Rightarrow> None
         | e # es \<Rightarrow>
             if e = 117 then
               (case es of
                  h1 # h2 # h3 # h4 # r \<Rightarrow>
                    (case hex4 h1 h2 h3 h4 of
                       None \<Rightarrow> None
                     | Some u \<Rightarrow>
                         if 55296 \<le> u \<and> u \<le> 56319 \<and> take 2 r = [92, 117] then
                           (case r of
                              b # v # k1 # k2 # k3 # k4 # r2 \<Rightarrow>
                                (case hex4 k1 k2 k3 k4 of
                                   None \<Rightarrow> None
                                 | Some u2 \<Rightarrow>
                                     if 56320 \<le> u2 \<and> u2 \<le> 57343
                                     then cons_char (65536 + (u - 55296) * 1024 + (u2 - 56320))
                                            (scanstring r2)
                                     else cons_char u (scanstring r))
                            | _ \<Rightarrow> None)
                         else cons_char u (scanstring r))
                | _ \<Rightarrow> None)
             else (case unescape e of
                     None \<Rightarrow> None
                   | Some ch \<Rightarrow> cons_char ch (scanstring es)))
      else if c < 32 then None
      else cons_char c (scanstring cs))"

text \<open>
  \<open>match_number\<close> is the match of the number pattern at the start of the text: the
  integer part with its sign, the fraction, the exponent, and the text behind the match.
\<close>

definition match_number :: "pystr \<Rightarrow> (pystr \<times> pystr \<times> pystr \<times> pystr) option" where
  "match_number s =
     (let (sign, s1) = (case s of [] \<Rightarrow> ([], s) | c # cs \<Rightarrow> if c = 45 then ([45], cs) else ([], s))
      in case s1 of
           [] \<Rightarrow> None
         | d # ds \<Rightarrow>
             if \<not> is_digit d then None
             else
               (let (ipart, s2) =
                      (if d = 48 then ([48], ds)
                       else (d # takeWhile is_digit ds, dropWhile is_digit ds));
                    (frac, s3) =
                      (case s2 of
                         p # q # qs \<Rightarrow>
                           if p = 46 \<and> is_digit q
                           then (p # q # takeWhile is_digit qs, dropWhile is_digit qs)
                           else ([], s2)
                       | _ \<Rightarrow> ([], s2));
                    (ex, s4) =
                      (case s3 of
                         [] \<Rightarrow> ([], s3)
                       | e # es \<Rightarrow>
                           if e = 101 \<or> e = 69 then
                             (let (sg, ds2) =
                                    (case es of
                                       [] \<Rightarrow> ([], es)
                                     | g # gs \<Rightarrow> if g = 43 \<or> g = 45 then ([g], gs) else ([], es))
                              in if ds2 \<noteq> [] \<and> is_digit (hd ds2)
                                 then (e # sg @ takeWhile is_digit ds2, dropWhile is_digit ds2)
                                 else ([], s3))
                           else ([], s3))
                in Some (sign @ ipart, frac, ex, s4)))"

text \<open>\<open>int()\<close> of an integer lexeme of the pattern above.\<close>

definition int_of_lexeme :: "pystr \<Rightarrow> int" where
  "int_of_lexeme s =
     (case s of
        [] \<Rightarrow> 0
      | c # cs \<Rightarrow>
          if c = 45 then - int (foldl (\<lambda>a d. 10 * a + (d - 48)) 0 cs)
          else int (foldl (\<lambda>a d. 10 * a + (d - 48)) 0 s))"

text \<open>\<open>dict(pairs)\<close>: a key that comes again keeps its place and takes the new value.\<close>

definition dict_of_pairs :: "(pystr \<times> 'v) list \<Rightarrow> (pystr \<times> 'v) list" where
  "dict_of_pairs pairs = foldl (\<lambda>d (k, v). AList.update k v d) [] pairs"

text \<open>
  The scanner. Its first argument after \<open>parse_float\<close> bounds the calls that are still
  allowed, and every call passes on one less; running out is a failure. A text that
  decodes holds fewer nested and listed values than characters, so \<open>json_loads\<close>, which
  starts above the length of the text, does not run out on it.
  \<open>json_array\<close> starts at a value of the array, \<open>json_object\<close> behind the opening quote of
  a key.
\<close>

fun scan_once :: "(pystr \<Rightarrow> 'f) \<Rightarrow> nat \<Rightarrow> pystr \<Rightarrow> ('f json \<times> pystr) option"
  and json_array :: "(pystr \<Rightarrow> 'f) \<Rightarrow> nat \<Rightarrow> pystr \<Rightarrow> ('f json list \<times> pystr) option"
  and json_object ::
    "(pystr \<Rightarrow> 'f) \<Rightarrow> nat \<Rightarrow> pystr \<Rightarrow> ((pystr \<times> 'f json) list \<times> pystr) option"
where
  "scan_once pf 0 s = None"
| "scan_once pf (Suc n) s =
     (case s of
        [] \<Rightarrow> None
      | c # cs \<Rightarrow>
          if c = 34 then
            (case scanstring cs of
               None \<Rightarrow> None
             | Some (str, r) \<Rightarrow> Some (JStr str, r))
          else if c = 123 then
            (case skip_ws cs of
               [] \<Rightarrow> None
             | q # qs \<Rightarrow>
                 if q = 125 then Some (JObj [], qs)
                 else if q = 34 then
                   (case json_object pf n qs of
                      None \<Rightarrow> None
                    | Some (pairs, r) \<Rightarrow> Some (JObj (dict_of_pairs pairs), r))
                 else None)
          else if c = 91 then
            (case skip_ws cs of
               [] \<Rightarrow> None
             | q # qs \<Rightarrow>
                 if q = 93 then Some (JArr [], qs)
                 else (case json_array pf n (q # qs) of
                         None \<Rightarrow> None
                       | Some (vs, r) \<Rightarrow> Some (JArr vs, r)))
          else if startswith s (py ''null'') then Some (JNull, drop 4 s)
          else if startswith s (py ''true'') then Some (JBool True, drop 4 s)
          else if startswith s (py ''false'') then Some (JBool False, drop 5 s)
          else
            (case match_number s of
               Some (ipart, frac, ex, r) \<Rightarrow>
                 if frac = [] \<and> ex = [] then Some (JInt (int_of_lexeme ipart), r)
                 else Some (JFloat (pf (ipart @ frac @ ex)), r)
             | None \<Rightarrow>
                 if startswith s (py ''NaN'') then Some (JFloat (pf (py ''NaN'')), drop 3 s)
                 else if startswith s (py ''Infinity'')
                 then Some (JFloat (pf (py ''Infinity'')), drop 8 s)
                 else if startswith s (py ''-Infinity'')
                 then Some (JFloat (pf (py ''-Infinity'')), drop 9 s)
                 else None))"
| "json_array pf 0 s = None"
| "json_array pf (Suc n) s =
     (case scan_once pf n s of
        None \<Rightarrow> None
      | Some (v, r) \<Rightarrow>
          (case skip_ws r of
             [] \<Rightarrow> None
           | c # cs \<Rightarrow>
               if c = 93 then Some ([v], cs)
               else if c = 44 then
                 (case json_array pf n (skip_ws cs) of
                    None \<Rightarrow> None
                  | Some (vs, r2) \<Rightarrow> Some (v # vs, r2))
               else None))"
| "json_object pf 0 s = None"
| "json_object pf (Suc n) s =
     (case scanstring s of
        None \<Rightarrow> None
      | Some (key, r) \<Rightarrow>
          (case skip_ws r of
             [] \<Rightarrow> None
           | c # cs \<Rightarrow>
               if c \<noteq> 58 then None
               else
                 (case scan_once pf n (skip_ws cs) of
                    None \<Rightarrow> None
                  | Some (v, r2) \<Rightarrow>
                      (case skip_ws r2 of
                         [] \<Rightarrow> None
                       | d # ds \<Rightarrow>
                           if d = 125 then Some ([(key, v)], ds)
                           else if d = 44 then
                             (case skip_ws ds of
                                [] \<Rightarrow> None
                              | q # qs \<Rightarrow>
                                  if q = 34 then
                                    (case json_object pf n qs of
                                       None \<Rightarrow> None
                                     | Some (ps, r3) \<Rightarrow> Some ((key, v) # ps, r3))
                                  else None)
                           else None))))"

text \<open>
  \<open>json.loads(s)\<close>: white space, one value, white space, end of text; \<open>None\<close> when the
  library raises.
\<close>

definition json_loads :: "(pystr \<Rightarrow> 'f) \<Rightarrow> pystr \<Rightarrow> 'f json option" where
  "json_loads pf s =
     (case scan_once pf (Suc (length s)) (skip_ws s) of
        None \<Rightarrow> None
      | Some (v, r) \<Rightarrow> if skip_ws r = [] then Some v else None)"

section \<open>Parameter normalizer\<close>

text \<open>
  \<open>normalize_for_gpt5\<close> (main.py, lines 36-45). The request body is a dict from strings to
  values; \<open>body.get("model", "")\<close> may be any value, and \<open>.startswith\<close> exists on strings
  only, so a model that is not a string raises \<open>AttributeError\<close>. The source copies the
  dict before it pops and stores, so the caller's dict is never changed.
\<close>

type_synonym 'f body = "pystr \<rightharpoonup> 'f json"

definition dict_get :: "'f body \<Rightarrow> pystr \<Rightarrow> 'f json \<Rightarrow> 'f json" where
  "dict_get d k dflt = (case d k of None \<Rightarrow> dflt | Some v \<Rightarrow> v)"

definition normalize_for_gpt5 :: "'f body \<Rightarrow> exn + 'f body" where
  "normalize_for_gpt5 body =
     (case dict_get body (py ''model'') (JStr []) of
        JStr model \<Rightarrow>
          if startswith model (py ''gpt-5'') \<and> body (py ''max_tokens'') \<noteq> None
             \<and> body (py ''max_completion_tokens'') = None
          then Inr ((body(py ''max_tokens'' := None))
                      (py ''max_completion_tokens'' := body (py ''max_tokens'')))
          else Inr body
      | _ \<Rightarrow> Inl AttributeError)"

section \<open>Provider dispatcher\<close>

text \<open>\<open>is_openrouter_model\<close> (main.py, lines 48-54): \<open>"/" in model or model.endswith(":free")\<close>.\<close>

definition is_openrouter_model :: "pystr \<Rightarrow> bool" where
  "is_openrouter_model model = (of_char CHR ''/'' \<in> set model \<or> endswith model (py '':free''))"


text \<open>
  \<open>forward_to_upstream\<close> (main.py, lines 57-81). The two credentials are read from the
  environment at start-up; \<open>not KEY\<close> holds for an unset and for an empty key. The
  network call is a parameter \<open>post\<close> (URL, headers, body) that either raises
  \<open>httpx.HTTPError\<close> or returns a response; of a response the model keeps the status
  code and what \<open>.json()\<close> returns (\<open>None\<close> when it raises). \<open>body.get("model", "")\<close> need not
  be a string: \<open>"/" in model\<close> raises \<open>TypeError\<close> on a number, a boolean or \<open>None\<close>,
  and on a list or dict it is membership, after which \<open>.endswith\<close> raises
  \<open>AttributeError\<close>.
\<close>

record config =
  OPENAI_API_KEY :: "pystr option"
  OPENROUTER_API_KEY :: "pystr option"

record 'f response =
  status_code :: nat
  body_json :: "'f json option"

text \<open>\<open>PrefillIn\<close> (main.py, lines 212-215), the request schema of the prefill endpoint.\<close>

record prefill_in =
  email_text :: pystr
  model :: "pystr option"

type_synonym 'f transport = "pystr \<Rightarrow> (pystr \<times> pystr) list \<Rightarrow> 'f body \<Rightarrow> exn + 'f response"

definition OPENAI_URL :: pystr where
  "OPENAI_URL = py ''https://api.openai.com/v1/chat/completions''"

definition OPENROUTER_URL :: pystr where
  "OPENROUTER_URL = py ''https://openrouter.ai/api/v1/chat/completions''"

definition use_openrouter_of :: "'f json \<Rightarrow> exn + bool" where
  "use_openrouter_of mdl =
     (case mdl of
        JStr m \<Rightarrow> Inr (is_openrouter_model m)
      | JArr xs \<Rightarrow>
          if list_ex (\<lambda>x. case x of JStr t \<Rightarrow> t = py ''/'' | _ \<Rightarrow> False) xs then Inr True
          else Inl AttributeError
      | JObj kvs \<Rightarrow> if list_ex (\<lambda>(k, v). k = py ''/'') kvs then Inr True else Inl AttributeError
      | _ \<Rightarrow> Inl TypeError)"

definition forward_to_upstream :: "config \<Rightarrow> 'f transport \<Rightarrow> 'f body \<Rightarrow> exn + 'f response" where
  "forward_to_upstream cfg post body =
     (case use_openrouter_of (dict_get body (py ''model'') (JStr [])) of
        Inl e \<Rightarrow> Inl e
      | Inr use_openrouter \<Rightarrow>
          if use_openrouter then
            (case OPENROUTER_API_KEY cfg of
               None \<Rightarrow> Inl (HTTPException 500 ''OPENROUTER_API_KEY not set'')
             | Some key \<Rightarrow>
                 if key = [] then Inl (HTTPException 500 ''OPENROUTER_API_KEY not set'')
                 else post OPENROUTER_URL
                        [(py ''Content-Type'', py ''application/json''),
                         (py ''Authorization'', py ''Bearer '' @ key)] body)
          else
            (case OPENAI_API_KEY cfg of
               None \<Rightarrow> Inl (HTTPException 500 ''OPENAI_API_KEY not set'')
             | Some key \<Rightarrow>
                 if key = [] then Inl (HTTPException 500 ''OPENAI_API_KEY not set'')
                 else post OPENAI_URL
                        [(py ''Content-Type'', py ''application/json''),
                         (py ''Authorization'', py ''Bearer '' @ key)] body))"

section \<open>Record canonicalizer\<close>

text \<open>
  \<open>str(v)\<close> of a decoded value. A string is itself, an integer its decimal digits, a
  boolean \<open>True\<close> or \<open>False\<close>, \<open>None\<close> the word \<open>None\<close>; of a float, a list or a dict it is
  the \<open>repr\<close>, which is a parameter (shortest round-trip digits, quoting of nested
  strings).
\<close>

fun digits_of :: "nat \<Rightarrow> pystr" where
  "digits_of n = (if n < 10 then [48 + n] else digits_of (n div 10) @ [48 + n mod 10])"

declare digits_of.simps [simp del]

definition py_str :: "('f json \<Rightarrow> pystr) \<Rightarrow> 'f json \<Rightarrow> pystr" where
  "py_str repr v =
     (case v of
        JStr s \<Rightarrow> s
      | JInt i \<Rightarrow> (if i < 0 then 45 # digits_of (nat (- i)) else digits_of (nat i))
      | JBool b \<Rightarrow> (if b then py ''True'' else py ''False'')
      | JNull \<Rightarrow> py ''None''
      | _ \<Rightarrow> repr v)"

text \<open>\<open>isinstance(v, (int, float))\<close>; \<open>bool\<close> is a subclass of \<open>int\<close>.\<close>

definition is_number :: "'f json \<Rightarrow> bool" where
  "is_number v = (case v of JInt _ \<Rightarrow> True | JFloat _ \<Rightarrow> True | JBool _ \<Rightarrow> True | _ \<Rightarrow> False)"

definition fields :: "pystr list" where
  "fields = [py ''amount'', py ''currency'', py ''due_date'', py ''description'',
             py ''company'', py ''contact'']"

text \<open>
  \<open>canonicalize_record\<close> (main.py, lines 162-176). \<open>canonical_value\<close> is the body of its
  loop for the field \<open>k\<close>, and the loop stores one value per field into \<open>out\<close>. Only a
  dict has \<open>.get\<close>: on any other value the first pass of the loop raises
  \<open>AttributeError\<close>.
\<close>

definition canonical_value ::
  "('f json \<Rightarrow> pystr) \<Rightarrow> (pystr \<times> 'f json) list \<Rightarrow> pystr \<Rightarrow> pystr" where
  "canonical_value repr d k =
     (let v = (case map_of d k of None \<Rightarrow> JStr [] | Some x \<Rightarrow> x);
          v = (case v of JNull \<Rightarrow> JStr [] | _ \<Rightarrow> v);
          v = (if k = py ''amount'' \<and> is_number v then JStr (py_str repr v) else v)
      in strip (py_str repr v))"

definition canonicalize_record ::
  "('f json \<Rightarrow> pystr) \<Rightarrow> 'f json \<Rightarrow> exn + (pystr \<times> pystr) list" where
  "canonicalize_record repr d =
     (case d of
        JObj kvs \<Rightarrow>
          Inr (foldl (\<lambda>out k. AList.update k (canonical_value repr kvs k) out) [] fields)
      | _ \<Rightarrow> Inl AttributeError)"

section \<open>Append-only record store\<close>

text \<open>
  The file \<open>data.csv\<close>: \<open>None\<close> while it does not exist, otherwise its rows, each a list of
  cells (the quoting of the CSV writer is left out). \<open>ensure_csv_header\<close> (main.py, lines
  84-94) writes the header when the file is missing or empty; \<open>writerow\<close> is
  \<open>open(path, "a")\<close> followed by \<open>DictWriter.writerow\<close>, which writes the cells in the
  order of the field names. Input/output errors are not modelled.
\<close>

type_synonym store = "pystr list list option"

definition ensure_csv_header :: "store \<Rightarrow> pystr list \<Rightarrow> store" where
  "ensure_csv_header st fieldnames =
     (let need_header = (case st of None \<Rightarrow> True | Some rows \<Rightarrow> rows = [])
      in if need_header then Some [fieldnames] else st)"

definition writerow :: "store \<Rightarrow> pystr list \<Rightarrow> (pystr \<times> pystr) list \<Rightarrow> store" where
  "writerow st fieldnames record =
     Some ((case st of None \<Rightarrow> [] | Some rows \<Rightarrow> rows)
           @ [map (\<lambda>k. case map_of record k of None \<Rightarrow> [] | Some v \<Rightarrow> v) fieldnames])"

section \<open>The prefill endpoint\<close>

text \<open>
  \<open>prefill\<close> (main.py, lines 218-307). A reply is the status code and the two fields of
  the content, \<open>success\<close> and \<open>message\<close>; the dict returned on success is sent with status
  200. The outcome is a reply, or the exception that leaves the handler, together with
  the store afterwards.
\<close>

datatype reply = Reply nat bool string

definition dq :: "string \<Rightarrow> pystr" where
  "dq s = 34 # py s @ [34]"

definition system_prompt :: pystr where
  "system_prompt =
     py ''Extract structured billing fields from the email. ''
     @ py ''Return ONLY a single JSON object with exactly these keys: ''
     @ py ''amount, currency, due_date, description, company, contact. ''
     @ py ''If unknown, use an empty string. ''
     @ py ''due_date must be YYYY-MM-DD; amount must be numeric characters only (no currency symbols). ''
     @ py ''No code fences, no extra text.''"

definition user_prompt :: "pystr \<Rightarrow> pystr" where
  "user_prompt email =
     py ''Email:'' @ [10] @ py ''---'' @ [10]
     @ email @ [10]
     @ py ''---'' @ [10, 10]
     @ py ''Example JSON:'' @ [10]
     @ py ''{''
     @ dq ''amount'' @ py '':'' @ dq ''123.45'' @ py '',''
     @ dq ''currency'' @ py '':'' @ dq ''EUR'' @ py '',''
     @ dq ''due_date'' @ py '':'' @ dq ''2025-08-31'' @ py '',''
     @ dq ''description'' @ py '':'' @ dq ''August invoice for cloud services'' @ py '',''
     @ dq ''company'' @ py '':'' @ dq ''Acme GmbH'' @ py '',''
     @ dq ''contact'' @ py '':'' @ dq ''billing@acme.com''
     @ py ''}''"

definition prefill_body :: "pystr \<Rightarrow> pystr \<Rightarrow> 'f body" where
  "prefill_body email mdl =
     [py ''model'' \<mapsto> JStr mdl,
      py ''messages'' \<mapsto>
        JArr [JObj [(py ''role'', JStr (py ''system'')), (py ''content'', JStr system_prompt)],
              JObj [(py ''role'', JStr (py ''user'')), (py ''content'', JStr (user_prompt email))]],
      py ''response_format'' \<mapsto> JObj [(py ''type'', JStr (py ''json_object''))],
      py ''max_completion_tokens'' \<mapsto> JInt 1000]"

text \<open>
  Subscription as in \<open>resp["choices"][0]["message"]["content"]\<close>: by a string key and by
  the index 0.
\<close>

definition getitem_key :: "'f json \<Rightarrow> pystr \<Rightarrow> exn + 'f json" where
  "getitem_key v k =
     (case v of
        JObj kvs \<Rightarrow> (case map_of kvs k of None \<Rightarrow> Inl KeyError | Some x \<Rightarrow> Inr x)
      | _ \<Rightarrow> Inl TypeError)"

definition getitem_0 :: "'f json \<Rightarrow> exn + 'f json" where
  "getitem_0 v =
     (case v of
        JArr xs \<Rightarrow> (case xs of [] \<Rightarrow> Inl IndexError | x # _ \<Rightarrow> Inr x)
      | JStr s \<Rightarrow> (case s of [] \<Rightarrow> Inl IndexError | c # _ \<Rightarrow> Inr (JStr [c]))
      | JObj kvs \<Rightarrow> Inl KeyError
      | _ \<Rightarrow> Inl TypeError)"

definition raw_text_of :: "'f json \<Rightarrow> exn + 'f json" where
  "raw_text_of resp =
     (case getitem_key resp (py ''choices'') of
        Inl e \<Rightarrow> Inl e
      | Inr choices \<Rightarrow>
          (case getitem_0 choices of
             Inl e \<Rightarrow> Inl e
           | Inr choice \<Rightarrow>
               (case getitem_key choice (py ''message'') of
                  Inl e \<Rightarrow> Inl e
                | Inr message \<Rightarrow> getitem_key message (py ''content''))))"

text \<open>
  The call \<open>safe_json_from_text(raw_text)\<close> inside \<open>try ... except Exception\<close>: the content
  may be \<open>None\<close> or a string; on any other value \<open>text.strip()\<close> raises \<open>AttributeError\<close>.
\<close>

definition parse_raw_text :: "(pystr \<Rightarrow> 'f json option) \<Rightarrow> 'f json \<Rightarrow> exn + 'f json" where
  "parse_raw_text loads raw_text =
     (case raw_text of
        JNull \<Rightarrow> safe_json_from_text loads None
      | JStr t \<Rightarrow> safe_json_from_text loads (Some t)
      | _ \<Rightarrow> Inl AttributeError)"

text \<open>\<open>payload.model or "gpt-5-mini"\<close>: the default stands in for a missing and for an empty model.\<close>

definition model_of :: "prefill_in \<Rightarrow> pystr" where
  "model_of payload =
     (case model payload of
        None \<Rightarrow> py ''gpt-5-mini''
      | Some m \<Rightarrow> if m = [] then py ''gpt-5-mini'' else m)"

definition prefill ::
  "config \<Rightarrow> 'f transport \<Rightarrow> (pystr \<Rightarrow> 'f json option) \<Rightarrow> ('f json \<Rightarrow> pystr) \<Rightarrow>
   prefill_in \<Rightarrow> store \<Rightarrow> (exn + reply) \<times> store" where
  "prefill cfg post loads repr payload st =
     (let email = strip (email_text payload) in
      if email = [] then (Inr (Reply 400 False ''email_text is required''), st)
      else
        (let mdl = model_of payload
         in case normalize_for_gpt5 (prefill_body email mdl) of
              Inl e \<Rightarrow> (Inl e, st)
            | Inr body \<Rightarrow>
                (case forward_to_upstream cfg post body of
                   Inl e \<Rightarrow>
                     if e = HTTPError then (Inr (Reply 502 False ''something went wrong''), st)
                     else (Inl e, st)
                 | Inr upstream \<Rightarrow>
                     if status_code upstream \<noteq> 200
                     then (Inr (Reply (status_code upstream) False ''something went wrong''), st)
                     else
                       (case body_json upstream of
                          None \<Rightarrow> (Inl JSONDecodeError, st)
                        | Some resp \<Rightarrow>
                            (case raw_text_of resp of
                               Inl e \<Rightarrow> (Inl e, st)
                             | Inr raw_text \<Rightarrow>
                                 (case parse_raw_text loads raw_text of
                                    Inl e \<Rightarrow>
                                      (Inr (Reply 502 False ''something went wrong''), st)
                                  | Inr parsed \<Rightarrow>
                                      (case canonicalize_record repr parsed of
                                         Inl e \<Rightarrow> (Inl e, st)
                                       | Inr record \<Rightarrow>
                                           (Inr (Reply 200 True ''data extracted and written''),
                                            writerow (ensure_csv_header st fields) fields
                                              record))))))))"


section \<open>Properties of the string helpers\<close>

lemma inj_py: "inj py"
  unfolding py_def by (simp add: inj_on_def)

lemma py_eq: "py s = py t \<longleftrightarrow> s = t"
  using inj_py by (auto dest: injD)

lemma endswith_suffix: "endswith s p \<longleftrightarrow> suffix p s"
proof
  assume "endswith s p"
  then have "s = take (length s - length p) s @ p"
    unfolding endswith_def by (metis append_take_drop_id)
  then show "suffix p s"
    unfolding suffix_def by blast
next
  assume "suffix p s"
  then obtain q where "s = q @ p"
    unfolding suffix_def by blast
  then show "endswith s p"
    unfolding endswith_def by simp
qed

lemma startswith_prefix: "startswith s p \<longleftrightarrow> prefix p s"
  unfolding startswith_def
  by (metis append_eq_conv_conj prefix_def)

section \<open>Properties of the parameter normalizer\<close>

lemma key_neq:
  "py ''max_tokens'' \<noteq> py ''max_completion_tokens''"
  "py ''model'' \<noteq> py ''max_completion_tokens''"
  "py ''model'' \<noteq> py ''max_tokens''"
  "py ''max_completion_tokens'' \<noteq> py ''max_tokens''"
  "py ''max_completion_tokens'' \<noteq> py ''model''"
  "py ''max_tokens'' \<noteq> py ''model''"
  by (simp_all add: py_eq)

text \<open>The three ways \<open>normalize_for_gpt5\<close> can end.\<close>

lemma normalize_cases:
  "normalize_for_gpt5 b = Inl AttributeError \<or> normalize_for_gpt5 b = Inr b \<or>
   (\<exists>m. b (py ''model'') = Some (JStr m) \<and> startswith m (py ''gpt-5'')
      \<and> b (py ''max_tokens'') \<noteq> None \<and> b (py ''max_completion_tokens'') = None
      \<and> normalize_for_gpt5 b =
          Inr ((b(py ''max_tokens'' := None))
                 (py ''max_completion_tokens'' := b (py ''max_tokens''))))"
proof (cases "dict_get b (py ''model'') (JStr [])")
  case (JStr m)
  show ?thesis
  proof (cases "startswith m (py ''gpt-5'') \<and> b (py ''max_tokens'') \<noteq> None
                 \<and> b (py ''max_completion_tokens'') = None")
    case True
    then have "m \<noteq> []"
      by (auto simp: startswith_def py_def)
    with JStr have "b (py ''model'') = Some (JStr m)"
      by (auto simp: dict_get_def split: option.splits)
    with True JStr show ?thesis
      by (simp add: normalize_for_gpt5_def)
  next
    case False
    with JStr have "normalize_for_gpt5 b = Inr b"
      by (auto simp: normalize_for_gpt5_def)
    then show ?thesis by simp
  qed
qed (simp_all add: normalize_for_gpt5_def)

lemma normalize_renamed:
  assumes "b (py ''max_tokens'') \<noteq> None"
  shows "normalize_for_gpt5
           ((b(py ''max_tokens'' := None))(py ''max_completion_tokens'' := b (py ''max_tokens'')))
         = (case dict_get b (py ''model'') (JStr []) of
              JStr m \<Rightarrow> Inr ((b(py ''max_tokens'' := None))
                               (py ''max_completion_tokens'' := b (py ''max_tokens'')))
            | _ \<Rightarrow> Inl AttributeError)"
  using assms
  by (simp add: normalize_for_gpt5_def dict_get_def key_neq split: json.splits option.splits)

lemma normalize_returns:
  assumes "b (py ''model'') = None \<or> (\<exists>m. b (py ''model'') = Some (JStr m))"
  shows "normalize_for_gpt5 b \<noteq> Inl AttributeError"
  using assms by (auto simp: normalize_for_gpt5_def dict_get_def split: if_splits)

text \<open>
  Claim C9. The parameter normalizer is idempotent: running it on its own result gives
  that result again. An exception of the first run is the outcome of the composition too,
  so the statement covers the payloads on which the normalizer raises.
\<close>

theorem normalize_for_gpt5_idempotent:
  "(case normalize_for_gpt5 b of Inl e \<Rightarrow> Inl e | Inr b' \<Rightarrow> normalize_for_gpt5 b')
     = normalize_for_gpt5 b"
  using normalize_cases[of b]
proof (elim disjE exE conjE)
  fix m
  assume a: "b (py ''model'') = Some (JStr m)" "b (py ''max_tokens'') \<noteq> None"
    and r: "normalize_for_gpt5 b =
              Inr ((b(py ''max_tokens'' := None))
                     (py ''max_completion_tokens'' := b (py ''max_tokens'')))"
  show ?thesis
    using a r normalize_renamed[of b] by (simp add: dict_get_def)
qed simp_all

text \<open>
  Claim C8, as the specification states it: after normalization exactly one of
  \<open>max_tokens\<close> and \<open>max_completion_tokens\<close> is present, never both. The normalizer only
  renames when the new name is absent, so a payload that carries both names keeps both,
  and a payload that carries neither gets none.
\<close>

theorem normalize_for_gpt5_both_or_neither:
  "normalize_for_gpt5
     [py ''model'' \<mapsto> JStr (py ''gpt-5''), py ''max_tokens'' \<mapsto> JInt 1,
      py ''max_completion_tokens'' \<mapsto> JInt 2]
   = Inr [py ''model'' \<mapsto> JStr (py ''gpt-5''), py ''max_tokens'' \<mapsto> JInt 1,
          py ''max_completion_tokens'' \<mapsto> JInt 2]
   \<and> normalize_for_gpt5 [py ''model'' \<mapsto> JStr (py ''gpt-4o'')]
       = Inr [py ''model'' \<mapsto> JStr (py ''gpt-4o'')]"
  by (simp add: normalize_for_gpt5_def dict_get_def key_neq)

text \<open>
  Claim C8, amended. On every payload whose model is absent or a string the normalizer
  returns; if exactly one of the two token-limit names was present, exactly one is
  present afterwards; a payload with both names or with neither is returned unchanged.
\<close>

theorem normalize_for_gpt5_token_limit:
  assumes "b (py ''model'') = None \<or> (\<exists>m. b (py ''model'') = Some (JStr m))"
  shows "\<exists>b'. normalize_for_gpt5 b = Inr b'
    \<and> ((b (py ''max_tokens'') = None) \<noteq> (b (py ''max_completion_tokens'') = None) \<longrightarrow>
         (b' (py ''max_tokens'') = None) \<noteq> (b' (py ''max_completion_tokens'') = None))
    \<and> ((b (py ''max_tokens'') = None) = (b (py ''max_completion_tokens'') = None) \<longrightarrow>
         b' = b)"
  using normalize_cases[of b] normalize_returns[of b] assms
  by (elim disjE exE conjE) (auto simp: key_neq)

theorem normalize_for_gpt5_token_limit_witness:
  "normalize_for_gpt5 [py ''model'' \<mapsto> JStr (py ''gpt-5-mini''), py ''max_tokens'' \<mapsto> JInt 1000]
     = Inr [py ''model'' \<mapsto> JStr (py ''gpt-5-mini''),
            py ''max_completion_tokens'' \<mapsto> JInt 1000]"
proof -
  let ?b = "[py ''model'' \<mapsto> JStr (py ''gpt-5-mini''), py ''max_tokens'' \<mapsto> JInt 1000]"
  have "?b (py ''model'') = None \<or> (\<exists>m. ?b (py ''model'') = Some (JStr m))"
    by (simp add: key_neq)
  with normalize_for_gpt5_token_limit[of ?b]
  obtain b' where "normalize_for_gpt5 ?b = Inr b'"
    by blast
  moreover have "normalize_for_gpt5 ?b
     = Inr [py ''model'' \<mapsto> JStr (py ''gpt-5-mini''),
            py ''max_completion_tokens'' \<mapsto> JInt 1000]"
    by (auto simp: normalize_for_gpt5_def dict_get_def key_neq startswith_def py_def fun_upd_def)
  ultimately show ?thesis by simp
qed

section \<open>Properties of the provider dispatcher\<close>

text \<open>
  Claim C5. A model identifier is classified as OpenRouter exactly when it contains a
  \<open>/\<close> or ends with \<open>:free\<close>; every other identifier, the empty one included, goes to the
  default provider. The four identifiers of the specification classify as it says.
\<close>

theorem is_openrouter_model_classification:
  "(is_openrouter_model m \<longleftrightarrow>
      (\<exists>u v. m = u @ py ''/'' @ v) \<or> suffix (py '':free'') m)
   \<and> is_openrouter_model (py ''gpt-4o'') = False
   \<and> is_openrouter_model [] = False
   \<and> is_openrouter_model (py ''qwen/qwen3-235b-a22b:free'') = True
   \<and> is_openrouter_model (py ''anything:free'') = True"
proof -
  have "of_char CHR ''/'' \<in> set m \<longleftrightarrow> (\<exists>u v. m = u @ py ''/'' @ v)"
    by (auto simp: py_def in_set_conv_decomp)
  then have "is_openrouter_model m \<longleftrightarrow>
      (\<exists>u v. m = u @ py ''/'' @ v) \<or> suffix (py '':free'') m"
    by (simp add: is_openrouter_model_def endswith_suffix)
  moreover have "is_openrouter_model (py ''gpt-4o'') = False"
    by (simp add: is_openrouter_model_def endswith_def py_def)
  moreover have "is_openrouter_model [] = False"
    by (simp add: is_openrouter_model_def endswith_def py_def)
  moreover have "is_openrouter_model (py ''qwen/qwen3-235b-a22b:free'') = True"
    by (simp add: is_openrouter_model_def endswith_def py_def)
  moreover have "is_openrouter_model (py ''anything:free'') = True"
    by (simp add: is_openrouter_model_def endswith_def py_def)
  ultimately show ?thesis by blast
qed

section \<open>Properties of the decoder\<close>

text \<open>
  A larger bound never changes a value the scanner has found: what \<open>json_loads\<close>
  decodes does not depend on the bound it starts with.
\<close>

lemma fuel_Suc:
  "(\<forall>s r. scan_once pf n s = Some r \<longrightarrow> scan_once pf (Suc n) s = Some r)
   \<and> (\<forall>s r. json_array pf n s = Some r \<longrightarrow> json_array pf (Suc n) s = Some r)
   \<and> (\<forall>s r. json_object pf n s = Some r \<longrightarrow> json_object pf (Suc n) s = Some r)"
proof (induction n)
  case 0
  show ?case by simp
next
  case (Suc n)
  then have IHs: "\<And>s r. scan_once pf n s = Some r \<Longrightarrow> scan_once pf (Suc n) s = Some r"
    and IHa: "\<And>s r. json_array pf n s = Some r \<Longrightarrow> json_array pf (Suc n) s = Some r"
    and IHo: "\<And>s r. json_object pf n s = Some r \<Longrightarrow> json_object pf (Suc n) s = Some r"
    by blast+
  have so: "scan_once pf (Suc (Suc n)) s = Some r" if a: "scan_once pf (Suc n) s = Some r" for s r
  proof (cases s)
    case Nil
    with a show ?thesis by simp
  next
    case (Cons c cs)
    consider (str) "c = 34" | (obj) "c = 123" | (arr) "c = 91"
      | (other) "c \<noteq> 34" "c \<noteq> 123" "c \<noteq> 91"
      by blast
    then show ?thesis
    proof cases
      case str
      with a Cons show ?thesis by simp
    next
      case other
      with a Cons show ?thesis by simp
    next
      case obj
      show ?thesis
      proof (cases "skip_ws cs")
        case Nil
        with a Cons obj show ?thesis by simp
      next
        case (Cons q qs)
        consider "q = 125" | "q = 34" | "q \<noteq> 125" "q \<noteq> 34" by blast
        then show ?thesis
        proof cases
          case 1
          with a \<open>s = c # cs\<close> obj Cons show ?thesis by simp
        next
          case 3
          with a \<open>s = c # cs\<close> obj Cons show ?thesis by simp
        next
          case 2
          with a \<open>s = c # cs\<close> obj Cons obtain pairs r' where
            p: "json_object pf n qs = Some (pairs, r')" and r: "r = (JObj (dict_of_pairs pairs), r')"
            by (auto split: option.splits)
          from IHo[OF p] 2 r \<open>s = c # cs\<close> obj Cons show ?thesis by simp
        qed
      qed
    next
      case arr
      show ?thesis
      proof (cases "skip_ws cs")
        case Nil
        with a Cons arr show ?thesis by simp
      next
        case (Cons q qs)
        show ?thesis
        proof (cases "q = 93")
          case True
          with a \<open>s = c # cs\<close> arr Cons show ?thesis by simp
        next
          case False
          with a \<open>s = c # cs\<close> arr Cons obtain vs r' where
            p: "json_array pf n (q # qs) = Some (vs, r')" and r: "r = (JArr vs, r')"
            by (auto split: option.splits)
          from IHa[OF p] False r \<open>s = c # cs\<close> arr Cons show ?thesis by simp
        qed
      qed
    qed
  qed
  have ja: "json_array pf (Suc (Suc n)) s = Some r" if a: "json_array pf (Suc n) s = Some r" for s r
  proof -
    from a obtain v r1 where v: "scan_once pf n s = Some (v, r1)"
      by (auto split: option.splits)
    show ?thesis
    proof (cases "skip_ws r1")
      case Nil
      with a v show ?thesis by simp
    next
      case (Cons c cs)
      consider "c = 93" | "c = 44" | "c \<noteq> 93" "c \<noteq> 44" by blast
      then show ?thesis
      proof cases
        case 1
        with a v Cons IHs[OF v] show ?thesis by simp
      next
        case 3
        with a v Cons show ?thesis by simp
      next
        case 2
        with a v Cons obtain vs r2 where
          p: "json_array pf n (skip_ws cs) = Some (vs, r2)" and r: "r = (v # vs, r2)"
          by (auto split: option.splits)
        from IHa[OF p] IHs[OF v] 2 r Cons show ?thesis by simp
      qed
    qed
  qed
  have jo: "json_object pf (Suc (Suc n)) s = Some r" if a: "json_object pf (Suc n) s = Some r" for s r
  proof -
    from a obtain key r1 where k: "scanstring s = Some (key, r1)"
      by (auto split: option.splits)
    show ?thesis
    proof (cases "skip_ws r1")
      case Nil
      with a k show ?thesis by simp
    next
      case (Cons c cs)
      with a k have c: "c = 58" by (auto split: if_splits)
      with a k Cons obtain v r2 where v: "scan_once pf n (skip_ws cs) = Some (v, r2)"
        by (auto split: option.splits)
      show ?thesis
      proof (cases "skip_ws r2")
        case Nil
        with a k \<open>skip_ws r1 = c # cs\<close> c v show ?thesis by simp
      next
        case (Cons d ds)
        note d = this
        consider "d = 125" | "d = 44" | "d \<noteq> 125" "d \<noteq> 44" by blast
        then show ?thesis
        proof cases
          case 1
          with a k \<open>skip_ws r1 = c # cs\<close> c v d IHs[OF v] show ?thesis by simp
        next
          case 3
          with a k \<open>skip_ws r1 = c # cs\<close> c v d show ?thesis by simp
        next
          case 2
          show ?thesis
          proof (cases "skip_ws ds")
            case Nil
            with a k \<open>skip_ws r1 = c # cs\<close> c v d 2 show ?thesis by simp
          next
            case (Cons q qs)
            show ?thesis
            proof (cases "q = 34")
              case False
              with a k \<open>skip_ws r1 = c # cs\<close> c v d 2 Cons show ?thesis by simp
            next
              case True
              with a k \<open>skip_ws r1 = c # cs\<close> c v d 2 Cons obtain ps r3 where
                p: "json_object pf n qs = Some (ps, r3)" and r: "r = ((key, v) # ps, r3)"
                by (auto split: option.splits)
              from IHo[OF p] IHs[OF v] k \<open>skip_ws r1 = c # cs\<close> c d 2 Cons True r
              show ?thesis by simp
            qed
          qed
        qed
      qed
    qed
  qed
  from so ja jo show ?case by blast
qed

lemma scan_once_more_fuel:
  "scan_once pf n s = Some r \<Longrightarrow> n \<le> m \<Longrightarrow> scan_once pf m s = Some r"
proof (induction m)
  case 0
  then show ?case by simp
next
  case (Suc m)
  show ?case
  proof (cases "n = Suc m")
    case True
    with Suc.prems show ?thesis by simp
  next
    case False
    with Suc have "scan_once pf m s = Some r" by simp
    with fuel_Suc[of pf m] show ?thesis by blast
  qed
qed

section \<open>Properties of the extractor\<close>

subsection \<open>The source's strategies are the specification's\<close>

lemma re_search_no_close: "125 \<notin> set s \<Longrightarrow> re_search_braces s = None"
  by (induction s) (auto simp: upto_last_def)

text \<open>The leftmost greedy match of \<open>\{.*\}\<close> runs from the first \<open>{\<close> to the last \<open>}\<close>.\<close>

lemma re_search_braces_spec: "re_search_braces x = spec_first_to_last_brace x"
proof (induction x)
  case Nil
  show ?case by (simp add: spec_first_to_last_brace_def)
next
  case (Cons c cs)
  show ?case
  proof (cases "c = 123")
    case False
    with Cons show ?thesis by (simp add: spec_first_to_last_brace_def)
  next
    case True
    show ?thesis
    proof (cases "125 \<in> set cs")
      case True
      then have "dropWhile (\<lambda>c. c \<noteq> 125) (rev cs @ [c]) = dropWhile (\<lambda>c. c \<noteq> 125) (rev cs) @ [c]"
        by (intro dropWhile_append1[where x=125]) auto
      with True \<open>c = 123\<close> show ?thesis
        by (simp add: spec_first_to_last_brace_def upto_last_def)
    next
      case False
      then have "dropWhile (\<lambda>c. c \<noteq> 125) (rev cs @ [c]) = dropWhile (\<lambda>c. c \<noteq> 125) [c]"
        by (intro dropWhile_append2) auto
      with False \<open>c = 123\<close> show ?thesis
        by (simp add: spec_first_to_last_brace_def upto_last_def re_search_no_close)
    qed
  qed
qed

lemma find_char_dropWhile:
  "find_char ch x = Some i \<Longrightarrow> drop i x = dropWhile (\<lambda>c. c \<noteq> ch) x \<and> i < length x \<and> x ! i = ch"
  by (induction x arbitrary: i) (auto split: if_splits)

lemma find_char_None: "find_char ch x = None \<longleftrightarrow> ch \<notin> set x"
  by (induction x) auto

lemma brace_depth_snoc:
  "brace_depth (p @ [c]) = brace_depth p + (if c = 123 then 1 else if c = 125 then - 1 else 0)"
  by (simp add: brace_depth_def)

text \<open>
  The loop, entered behind a prefix \<open>pre\<close> of the text from the first brace, with the depth
  that \<open>pre\<close> has reached: it decodes the shortest longer prefix of depth zero.
\<close>

lemma balanced_loop_spec_aux:
  assumes "y = pre @ rest" and "1 \<le> brace_depth pre" and "drop start text = y"
  shows "balanced_loop loads text start (brace_depth pre) (start + length pre) rest =
         (case filter (\<lambda>n. brace_depth (take n y) = 0) [Suc (length pre)..<Suc (length y)] of
            [] \<Rightarrow> None
          | n # _ \<Rightarrow> loads (take n y))"
  using assms
proof (induction rest arbitrary: pre)
  case Nil
  then show ?case by simp
next
  case (Cons ch rest)
  let ?pre = "pre @ [ch]"
  have y: "y = ?pre @ rest" using Cons.prems by simp
  have tk: "take (Suc (length pre)) y = ?pre" using y by simp
  have upt: "[Suc (length pre)..<Suc (length y)] = Suc (length pre) # [Suc (Suc (length pre))..<Suc (length y)]"
    by (rule upt_conv_Cons) (simp add: y)
  have sl: "slice text start (start + length pre + 1) = ?pre"
    using Cons.prems y by (simp add: slice_def)
  consider (op) "ch = 123" | (cl0) "ch = 125" "brace_depth pre - 1 = 0" 
    | (cl) "ch = 125" "brace_depth pre - 1 \<noteq> 0" | (other) "ch \<noteq> 123" "ch \<noteq> 125"
    by blast
  then show ?case
  proof cases
    case op
    then have d: "brace_depth ?pre = brace_depth pre + 1" by (simp add: brace_depth_snoc)
    with Cons.prems have "1 \<le> brace_depth ?pre" by simp
    from Cons.IH[OF y this Cons.prems(3)] d op Cons.prems(2) show ?thesis
      by (simp add: upt tk del: upt_Suc)
  next
    case cl0
    then have d: "brace_depth ?pre = 0" by (simp add: brace_depth_snoc)
    with cl0 sl show ?thesis
      by (simp add: upt tk del: upt_Suc)
  next
    case cl
    then have d: "brace_depth ?pre = brace_depth pre - 1" by (simp add: brace_depth_snoc)
    with cl Cons.prems have "1 \<le> brace_depth ?pre" by simp
    from Cons.IH[OF y this Cons.prems(3)] d cl show ?thesis
      by (simp add: upt tk del: upt_Suc)
  next
    case other
    then have d: "brace_depth ?pre = brace_depth pre" by (simp add: brace_depth_snoc)
    with Cons.prems have "1 \<le> brace_depth ?pre" by simp
    from Cons.IH[OF y this Cons.prems(3)] d other Cons.prems(2) show ?thesis
      by (simp add: upt tk del: upt_Suc)
  qed
qed

lemma balanced_loop_spec:
  "(case find_char 123 text of
      None \<Rightarrow> None
    | Some start \<Rightarrow> balanced_loop loads text start 0 start (drop start text))
   = (case spec_first_balanced_span text of None \<Rightarrow> None | Some c \<Rightarrow> loads c)"
proof (cases "find_char 123 text")
  case None
  then have dw: "dropWhile (\<lambda>c. c \<noteq> 123) text = []"
    by (auto simp: find_char_None)
  show ?thesis
    by (simp add: spec_first_balanced_span_def dw None)
next
  case (Some start)
  define y where "y = drop start text"
  from find_char_dropWhile[OF Some] have dw: "dropWhile (\<lambda>c. c \<noteq> 123) text = y"
    and "start < length text" and "text ! start = 123"
    by (simp_all add: y_def)
  then obtain rest where y: "y = 123 # rest"
    unfolding y_def by (metis Cons_nth_drop_Suc)
  have bd: "brace_depth [123] = 1" by (simp add: brace_depth_def)
  have "balanced_loop loads text start (brace_depth [123]) (start + length [123::nat]) rest =
         (case filter (\<lambda>n. brace_depth (take n y) = 0) [Suc (length [123::nat])..<Suc (length y)] of
            [] \<Rightarrow> None
          | n # _ \<Rightarrow> loads (take n y))"
    by (rule balanced_loop_spec_aux) (simp_all add: y bd y_def[symmetric])
  then have loop: "balanced_loop loads text start 0 start y =
         (case filter (\<lambda>n. brace_depth (take n y) = 0) [Suc (Suc 0)..<Suc (length y)] of
            [] \<Rightarrow> None
          | n # _ \<Rightarrow> loads (take n y))"
    by (simp add: y bd del: upt_Suc)
  have "[Suc 0..<Suc (length y)] = Suc 0 # [Suc (Suc 0)..<Suc (length y)]"
    by (rule upt_conv_Cons) (simp add: y)
  moreover have "brace_depth (take (Suc 0) y) = 1"
    by (simp add: y bd)
  ultimately have "filter (\<lambda>n. brace_depth (take n y) = 0) [Suc 0..<Suc (length y)]
      = filter (\<lambda>n. brace_depth (take n y) = 0) [Suc (Suc 0)..<Suc (length y)]"
    by simp
  with loop Some dw show ?thesis
    by (simp add: spec_first_balanced_span_def y_def[symmetric] del: upt_Suc split: list.splits)
qed

lemma safe_json_from_text_unfold:
  "safe_json_from_text loads (Some t) =
     (case first_success (spec_strategies loads) (preprocess t) of
        None \<Rightarrow> Inl (ValueError ''Could not parse JSON from model response'')
      | Some v \<Rightarrow> Inr v)"
  by (simp add: safe_json_from_text_def preprocess_def[symmetric] spec_strategies_def
      re_search_braces_spec balanced_loop_spec split: option.splits)

subsection \<open>Evaluation on concrete texts\<close>

lemmas eval_defs =
  json_loads_def py_def dq_def skip_ws_def json_ws_def startswith_def match_number_def
  is_digit_def int_of_lexeme_def safe_json_from_text_def strip_code_fences_def strip_def
  isspace_def fence_def replace_char_def splitlines_def is_linebreak_def upto_last_def
  slice_def dict_of_pairs_def cons_char_def unescape_def hex4_def hexval_def Let_def

lemma extract_with_noise:
  "safe_json_from_text (json_loads pf) (Some (py ''Sure! {'' @ dq ''a'' @ py '': 1} and }''))
     = Inr (JObj [(py ''a'', JInt 1)])"
  by (simp add: eval_defs)

lemma extract_plain_object:
  "safe_json_from_text (json_loads pf) (Some (py ''{'' @ dq ''a'' @ py '': 1}''))
     = Inr (JObj [(py ''a'', JInt 1)])"
  by (simp add: eval_defs)

lemma loads_plain_object:
  "json_loads pf (py ''{'' @ dq ''a'' @ py '': 1}'') = Some (JObj [(py ''a'', JInt 1)])"
  by (simp add: eval_defs)

lemma extract_array:
  "safe_json_from_text (json_loads pf) (Some (py ''[1, 2]'')) = Inr (JArr [JInt 1, JInt 2])"
  by (simp add: eval_defs)

text \<open>
  Claim C1. The extractor fails exactly when the text is absent or when, on the
  preprocessed text, none of the three strategies in their order (the whole text; the
  substring from the first \<open>{\<close> to the last \<open>}\<close>; the first balanced span and no later one)
  yields a value; otherwise it returns the result of the first strategy that succeeds.
  The failure is a \<open>ValueError\<close> that carries its message and nothing else.
\<close>

theorem safe_json_from_text_strategies:
  "safe_json_from_text loads text0 =
     (case text0 of
        None \<Rightarrow> Inl (ValueError ''Empty model response'')
      | Some t \<Rightarrow>
          (case first_success (spec_strategies loads) (preprocess t) of
             None \<Rightarrow> Inl (ValueError ''Could not parse JSON from model response'')
           | Some v \<Rightarrow> Inr v))
   \<and> (isl (safe_json_from_text loads text0) \<longleftrightarrow>
        text0 = None
        \<or> (\<exists>t. text0 = Some t
              \<and> loads (preprocess t) = None
              \<and> (case spec_first_to_last_brace (preprocess t) of
                    None \<Rightarrow> None | Some c \<Rightarrow> loads c) = None
              \<and> (case spec_first_balanced_span (preprocess t) of
                    None \<Rightarrow> None | Some c \<Rightarrow> loads c) = None))"
proof (cases text0)
  case None
  then show ?thesis by (simp add: safe_json_from_text_def)
next
  case (Some t)
  then show ?thesis
    by (simp add: safe_json_from_text_unfold spec_strategies_def split: option.splits)
qed

theorem safe_json_from_text_strategies_witness:
  "first_success (spec_strategies (json_loads (\<lambda>s::pystr. s)))
     (preprocess (py ''Sure! {'' @ dq ''a'' @ py '': 1} and }''))
   = Some (JObj [(py ''a'', JInt 1)])"
  using safe_json_from_text_strategies
          [of "json_loads (\<lambda>s::pystr. s)" "Some (py ''Sure! {'' @ dq ''a'' @ py '': 1} and }'')"]
        extract_with_noise[of "\<lambda>s::pystr. s"]
  by (simp split: option.splits)

text \<open>
  Claim C2, as the specification states it: on every decodable text the extractor
  returns the object the text denotes. The text \<open>{"a": "it's"}\<close> written with the
  typographic apostrophe U+2019 inside the string is decodable, and the extractor
  returns another object: preprocessing has replaced the apostrophe.
\<close>

theorem safe_json_from_text_changes_string:
  "json_loads (\<lambda>s::pystr. s)
     (py ''{'' @ dq ''a'' @ py '': '' @ [34] @ py ''it'' @ [8217] @ py ''s'' @ [34] @ py ''}'')
     = Some (JObj [(py ''a'', JStr (py ''it'' @ [8217] @ py ''s''))])
   \<and> safe_json_from_text (json_loads (\<lambda>s::pystr. s))
       (Some (py ''{'' @ dq ''a'' @ py '': '' @ [34] @ py ''it'' @ [8217] @ py ''s'' @ [34]
              @ py ''}''))
     = Inr (JObj [(py ''a'', JStr (py ''it'' @ [39] @ py ''s''))])
   \<and> JObj [(py ''a'', JStr (py ''it'' @ [39] @ py ''s''))]
       \<noteq> (JObj [(py ''a'', JStr (py ''it'' @ [8217] @ py ''s''))] :: pystr json)"
  by (simp add: eval_defs)

text \<open>
  Claim C2, amended. On every decodable text with nothing around the value (no white
  space at either end, no fence marker at the start) that contains none of the three
  characters U+201C, U+201D and U+2019, the direct decode, and with it the extractor,
  returns the object the text denotes.
\<close>

theorem safe_json_from_text_direct:
  assumes "loads t = Some v"
    and "strip t = t"
    and "\<not> startswith t fence"
    and "8220 \<notin> set t" and "8221 \<notin> set t" and "8217 \<notin> set t"
  shows "safe_json_from_text loads (Some t) = Inr v"
proof -
  have "strip_code_fences t = t"
    using assms(2,3) by (simp add: strip_code_fences_def)
  moreover have "replace_char a b t = t" if "a \<notin> set t" for a b
    using that unfolding replace_char_def by (intro map_idI) auto
  ultimately have "preprocess t = t"
    using assms(4-6) by (simp add: preprocess_def)
  with assms(1) show ?thesis
    by (simp add: safe_json_from_text_unfold spec_strategies_def)
qed

theorem safe_json_from_text_direct_witness:
  "safe_json_from_text (json_loads (\<lambda>s::pystr. s)) (Some (py ''{'' @ dq ''a'' @ py '': 1}''))
     = Inr (JObj [(py ''a'', JInt 1)])"
proof (rule safe_json_from_text_direct)
  show "json_loads (\<lambda>s::pystr. s) (py ''{'' @ dq ''a'' @ py '': 1}'')
          = Some (JObj [(py ''a'', JInt 1)])"
    by (rule loads_plain_object)
  show "strip (py ''{'' @ dq ''a'' @ py '': 1}'') = py ''{'' @ dq ''a'' @ py '': 1}''"
    by (simp add: eval_defs)
  show "\<not> startswith (py ''{'' @ dq ''a'' @ py '': 1}'') fence"
    by (simp add: eval_defs)
  show "8220 \<notin> set (py ''{'' @ dq ''a'' @ py '': 1}'')"
    by (simp add: eval_defs)
  show "8221 \<notin> set (py ''{'' @ dq ''a'' @ py '': 1}'')"
    by (simp add: eval_defs)
  show "8217 \<notin> set (py ''{'' @ dq ''a'' @ py '': 1}'')"
    by (simp add: eval_defs)
qed

subsection \<open>Fenced blocks\<close>

text \<open>
  A block whose two fence lines stand on their own: the opening line \<open>```json\<close>, the
  inner text, the closing line. If the inner text has no line boundary but \<open>\n\<close>, the
  normalizer gives back the inner text, stripped; if moreover the inner text does not
  start with a fence marker itself, the extractor treats block and inner text alike.
\<close>

lemma join_Cons: "L \<noteq> [] \<Longrightarrow> join sep (x # L) = x @ sep @ join sep L"
  by (cases L) simp_all

lemma splitlines_from_fence: "splitlines_from cur fence = [cur @ fence]"
  by (simp add: fence_def is_linebreak_def)

lemma splitlines_from_block:
  assumes "\<forall>c \<in> set inner. is_linebreak c \<longrightarrow> c = 10"
  shows "\<exists>L. splitlines_from cur (inner @ 10 # fence) = L @ [fence]
            \<and> join [10] L = cur @ inner \<and> L \<noteq> []"
  using assms
proof (induction inner arbitrary: cur)
  case Nil
  have "splitlines_from cur (10 # fence) = [cur] @ [fence]"
    using splitlines_from_fence[of "[]"] by (simp add: is_linebreak_def)
  then show ?case by fastforce
next
  case (Cons c cs)
  then have cs: "\<forall>c \<in> set cs. is_linebreak c \<longrightarrow> c = 10" by simp
  show ?case
  proof (cases "c = 10")
    case True
    from Cons.IH[OF cs, of "[]"] obtain L where
      L: "splitlines_from [] (cs @ 10 # fence) = L @ [fence]" "join [10] L = cs" "L \<noteq> []"
      by auto
    have "splitlines_from cur ((c # cs) @ 10 # fence) = (cur # L) @ [fence]"
      using True L(1) by (simp add: is_linebreak_def)
    moreover have "join [10] (cur # L) = cur @ c # cs"
      using True L(2,3) by (simp add: join_Cons)
    ultimately show ?thesis by blast
  next
    case False
    with Cons.prems have nb: "\<not> is_linebreak c" by auto
    from Cons.IH[OF cs, of "cur @ [c]"] obtain L where
      L: "splitlines_from (cur @ [c]) (cs @ 10 # fence) = L @ [fence]"
         "join [10] L = (cur @ [c]) @ cs" "L \<noteq> []"
      by auto
    then show ?thesis using nb by auto
  qed
qed

lemma strip_fenced:
  "strip (fence @ mid @ fence) = fence @ mid @ fence"
proof -
  have "\<not> isspace 96" by (simp add: isspace_def)
  then have "dropWhile isspace (fence @ mid @ fence) = fence @ mid @ fence"
    by (simp add: fence_def)
  moreover have "dropWhile isspace (rev (fence @ mid @ fence)) = rev (fence @ mid @ fence)"
    using \<open>\<not> isspace 96\<close> by (simp add: fence_def)
  ultimately show ?thesis by (simp add: strip_def)
qed

lemma strip_fence: "strip fence = fence"
  using strip_fenced[of "[]"] by (simp add: strip_def isspace_def fence_def)

lemma strip_code_fences_block:
  assumes "\<forall>c \<in> set inner. is_linebreak c \<longrightarrow> c = 10"
  shows "strip_code_fences (fence @ py ''json'' @ 10 # inner @ 10 # fence) = strip inner"
proof -
  let ?t = "fence @ py ''json'' @ 10 # inner @ 10 # fence"
  from splitlines_from_block[OF assms, of "[]"] obtain L where
    L: "splitlines_from [] (inner @ 10 # fence) = L @ [fence]" "join [10] L = inner" "L \<noteq> []"
    by auto
  have s: "strip ?t = ?t"
    using strip_fenced[of "py ''json'' @ 10 # inner @ [10]"] by simp
  have sw: "startswith ?t fence"
    by (simp add: startswith_def fence_def)
  have sl: "splitlines ?t = (fence @ py ''json'') # L @ [fence]"
    using L(1) by (simp add: splitlines_def fence_def py_def is_linebreak_def)
  have hd: "startswith (fence @ py ''json'') fence"
    by (simp add: startswith_def fence_def)
  have lst: "startswith (strip (last (L @ [fence]))) fence"
    by (simp add: strip_fence startswith_def)
  show ?thesis
    unfolding strip_code_fences_def Let_def s
    using sw sl hd lst L by simp
qed

lemma safe_json_from_text_fenced_block:
  assumes "\<forall>c \<in> set inner. is_linebreak c \<longrightarrow> c = 10"
    and "\<not> startswith (strip inner) fence"
  shows "safe_json_from_text loads (Some (fence @ py ''json'' @ 10 # inner @ 10 # fence))
         = safe_json_from_text loads (Some inner)"
proof -
  have "strip_code_fences inner = strip inner"
    using assms(2) by (simp add: strip_code_fences_def)
  with strip_code_fences_block[OF assms(1)]
  have "preprocess (fence @ py ''json'' @ 10 # inner @ 10 # fence) = preprocess inner"
    by (simp add: preprocess_def)
  then show ?thesis
    by (simp add: safe_json_from_text_unfold)
qed

text \<open>
  Claim C3. The docstring of \<open>_strip_code_fences\<close> gives the example of a fenced block on
  one line, \<open>```json {...} ```\<close>. The function drops every line that starts with the
  marker, so of that text nothing is left: the extractor fails on the fenced text and
  succeeds on the text inside.
\<close>

theorem safe_json_from_text_fence_on_one_line:
  "safe_json_from_text (json_loads pf)
     (Some (fence @ py ''json {'' @ dq ''a'' @ py '': 1} '' @ fence))
     = Inl (ValueError ''Could not parse JSON from model response'')
   \<and> safe_json_from_text (json_loads pf) (Some (py ''{'' @ dq ''a'' @ py '': 1}''))
     = Inr (JObj [(py ''a'', JInt 1)])
   \<and> strip_code_fences (fence @ py ''json {'' @ dq ''a'' @ py '': 1} '' @ fence) = []"
  by (simp add: eval_defs)

text \<open>
  Claim C10. On the text \<open>[1, 2]\<close> the extractor succeeds with a list, which is no
  mapping: the canonicalizer, handed that value, raises \<open>AttributeError\<close>. A success of
  the extractor does not establish what the canonicalizer assumes.
\<close>

theorem safe_json_from_text_not_a_mapping:
  "safe_json_from_text (json_loads pf) (Some (py ''[1, 2]'')) = Inr (JArr [JInt 1, JInt 2])
   \<and> (\<forall>kvs. JArr [JInt 1, JInt 2] \<noteq> (JObj kvs :: 'f json))
   \<and> canonicalize_record repr (JArr [JInt 1, JInt 2] :: 'f json) = Inl AttributeError"
  by (simp add: extract_array canonicalize_record_def)

section \<open>Properties of the canonicalizer\<close>

lemma py_str_JStr: "py_str repr (JStr s) = s"
  by (simp add: py_str_def)

text \<open>The value of a field: the source value, or the empty string for a missing key and
  for \<open>null\<close>, coerced to a string and trimmed.\<close>

lemma canonical_value_eq:
  "canonical_value repr kvs k =
     strip (py_str repr (case map_of kvs k of
                           None \<Rightarrow> JStr [] | Some JNull \<Rightarrow> JStr [] | Some v \<Rightarrow> v))"
proof -
  define v0 where
    "v0 = (case map_of kvs k of None \<Rightarrow> JStr [] | Some JNull \<Rightarrow> JStr [] | Some v \<Rightarrow> v)"
  define v1 where "v1 = (case map_of kvs k of None \<Rightarrow> JStr [] | Some x \<Rightarrow> x)"
  have "(case v1 of JNull \<Rightarrow> JStr [] | _ \<Rightarrow> v1) = v0"
    unfolding v0_def v1_def by (cases "map_of kvs k") (simp_all split: json.splits)
  then show ?thesis
    unfolding canonical_value_def Let_def v0_def[symmetric] v1_def[symmetric]
    by (simp add: py_str_JStr)
qed

lemma digits_of_digits: "c \<in> set (digits_of n) \<Longrightarrow> 48 \<le> c \<and> c \<le> 57"
proof (induction n arbitrary: c rule: digits_of.induct)
  case (1 n)
  show ?case
  proof (cases "n < 10")
    case True
    with "1.prems" show ?thesis by (simp add: digits_of.simps[of n])
  next
    case False
    with "1.prems" have "c \<in> set (digits_of (n div 10)) \<or> c = 48 + n mod 10"
      by (auto simp: digits_of.simps[of n])
    with "1.IH"[OF False] show ?thesis by auto
  qed
qed

lemma strip_no_space:
  assumes "\<And>c. c \<in> set s \<Longrightarrow> \<not> isspace c"
  shows "strip s = s"
proof (cases "s = []")
  case True
  then show ?thesis by (simp add: strip_def)
next
  case False
  with assms have "\<not> isspace (hd s)" and "\<not> isspace (hd (rev s))"
    by (simp_all add: hd_rev)
  then have "dropWhile isspace s = s" and "dropWhile isspace (rev s) = rev s"
    by (simp_all add: dropWhile_eq_self_iff del: hd_rev)
  then show ?thesis by (simp add: strip_def)
qed

lemma strip_int: "strip (py_str repr (JInt i)) = py_str repr (JInt i)"
proof (rule strip_no_space)
  fix c assume "c \<in> set (py_str repr (JInt i))"
  then have "c = 45 \<or> (48 \<le> c \<and> c \<le> 57)"
    by (auto simp: py_str_def dest: digits_of_digits split: if_splits)
  then show "\<not> isspace c" by (auto simp: isspace_def)
qed

lemma canonicalize_record_JObj:
  "canonicalize_record repr (JObj kvs) =
     Inr [(py ''amount'', canonical_value repr kvs (py ''amount'')),
          (py ''currency'', canonical_value repr kvs (py ''currency'')),
          (py ''due_date'', canonical_value repr kvs (py ''due_date'')),
          (py ''description'', canonical_value repr kvs (py ''description'')),
          (py ''company'', canonical_value repr kvs (py ''company'')),
          (py ''contact'', canonical_value repr kvs (py ''contact''))]"
  by (simp add: canonicalize_record_def fields_def py_eq)

text \<open>
  Claim C4. On every decoded mapping the canonicalizer returns a record with exactly the
  six fields, in their order. Each field holds the string coercion of the source value,
  trimmed, where a missing key and \<open>null\<close> count as the empty string; an integer amount
  comes out as its digits. Keys outside the six fields do not reach the record.
\<close>

theorem canonicalize_record_complete:
  "\<exists>out. canonicalize_record repr (JObj kvs) = Inr out
     \<and> map fst out = fields
     \<and> (\<forall>k \<in> set fields. map_of out k =
           Some (strip (py_str repr (case map_of kvs k of
                                       None \<Rightarrow> JStr [] | Some JNull \<Rightarrow> JStr [] | Some v \<Rightarrow> v))))
     \<and> (\<forall>i. map_of kvs (py ''amount'') = Some (JInt i) \<longrightarrow>
           map_of out (py ''amount'') = Some (py_str repr (JInt i)))"
proof -
  define out where
    "out = [(py ''amount'', canonical_value repr kvs (py ''amount'')),
            (py ''currency'', canonical_value repr kvs (py ''currency'')),
            (py ''due_date'', canonical_value repr kvs (py ''due_date'')),
            (py ''description'', canonical_value repr kvs (py ''description'')),
            (py ''company'', canonical_value repr kvs (py ''company'')),
            (py ''contact'', canonical_value repr kvs (py ''contact''))]"
  have "canonicalize_record repr (JObj kvs) = Inr out"
    unfolding out_def by (rule canonicalize_record_JObj)
  moreover have "map fst out = fields"
    by (simp add: out_def fields_def)
  moreover have "\<forall>k \<in> set fields. map_of out k =
      Some (strip (py_str repr (case map_of kvs k of
                                  None \<Rightarrow> JStr [] | Some JNull \<Rightarrow> JStr [] | Some v \<Rightarrow> v)))"
    by (simp add: out_def fields_def py_eq canonical_value_eq)
  moreover have "\<forall>i. map_of kvs (py ''amount'') = Some (JInt i) \<longrightarrow>
      map_of out (py ''amount'') = Some (py_str repr (JInt i))"
    by (simp add: out_def canonical_value_eq strip_int)
  ultimately show ?thesis by blast
qed

theorem canonicalize_record_complete_witness:
  "\<exists>out. canonicalize_record (\<lambda>v. [])
            (JObj [(py ''amount'', JInt 123), (py ''currency'', JStr (py '' EUR '')),
                   (py ''due_date'', JNull), (py ''extra'', JStr (py ''x''))] :: pystr json)
          = Inr out
     \<and> map fst out = fields
     \<and> map_of out (py ''amount'') = Some (py ''123'')
     \<and> map_of out (py ''currency'') = Some (py ''EUR'')
     \<and> map_of out (py ''due_date'') = Some []
     \<and> map_of out (py ''company'') = Some []
     \<and> map_of out (py ''extra'') = None"
proof -
  let ?kvs = "[(py ''amount'', JInt 123), (py ''currency'', JStr (py '' EUR '')),
               (py ''due_date'', JNull), (py ''extra'', JStr (py ''x''))] :: (pystr \<times> pystr json) list"
  let ?repr = "\<lambda>v :: pystr json. [] :: pystr"
  from canonicalize_record_complete[of ?repr ?kvs]
  obtain out where r: "canonicalize_record ?repr (JObj ?kvs) = Inr out"
    and f: "map fst out = fields"
    and v: "\<forall>k \<in> set fields. map_of out k =
          Some (strip (py_str ?repr (case map_of ?kvs k of
                                       None \<Rightarrow> JStr [] | Some JNull \<Rightarrow> JStr [] | Some v \<Rightarrow> v)))"
    and a: "\<forall>i. map_of ?kvs (py ''amount'') = Some (JInt i) \<longrightarrow>
          map_of out (py ''amount'') = Some (py_str ?repr (JInt i))"
    by blast
  from a have "map_of out (py ''amount'') = Some (py_str ?repr (JInt 123))"
    by simp
  then have amount: "map_of out (py ''amount'') = Some (py ''123'')"
    by (simp add: py_str_def digits_of.simps py_def)
  have "py ''currency'' \<in> set fields"
    by (simp add: fields_def)
  with v have "map_of out (py ''currency'') = Some (strip (py_str ?repr (JStr (py '' EUR ''))))"
    by (simp add: py_eq)
  then have currency: "map_of out (py ''currency'') = Some (py ''EUR'')"
    by (simp add: py_str_def strip_def isspace_def py_def)
  have "py ''due_date'' \<in> set fields"
    by (simp add: fields_def)
  with v have due_date: "map_of out (py ''due_date'') = Some []"
    by (simp add: py_eq py_str_def strip_def)
  have "py ''company'' \<in> set fields"
    by (simp add: fields_def)
  with v have company: "map_of out (py ''company'') = Some []"
    by (simp add: py_eq py_str_def strip_def)
  have "py ''extra'' \<notin> set (map fst out)"
    by (simp add: f fields_def py_eq)
  then have extra: "map_of out (py ''extra'') = None"
    by (simp add: map_of_eq_None_iff)
  from r f amount currency due_date company extra show ?thesis
    by blast
qed

section \<open>Properties of the prefill endpoint\<close>

lemma prefill_body_model: "dict_get (prefill_body email mdl) (py ''model'') (JStr []) = JStr mdl"
  by (simp add: dict_get_def prefill_body_def py_eq)

text \<open>The body of the handler names \<open>max_completion_tokens\<close> already: normalization leaves
  it as it is.\<close>

lemma normalize_prefill_body:
  "normalize_for_gpt5 (prefill_body email mdl) = Inr (prefill_body email mdl)"
  by (simp add: normalize_for_gpt5_def prefill_body_model) (simp add: prefill_body_def py_eq)

text \<open>The handler behind a response of the upstream provider.\<close>

lemma prefill_after_upstream:
  assumes "strip (email_text payload) \<noteq> []"
    and "forward_to_upstream cfg post (prefill_body (strip (email_text payload)) (model_of payload))
           = Inr upstream"
  shows "prefill cfg post loads repr payload st =
     (if status_code upstream \<noteq> 200
      then (Inr (Reply (status_code upstream) False ''something went wrong''), st)
      else
        (case body_json upstream of
           None \<Rightarrow> (Inl JSONDecodeError, st)
         | Some resp \<Rightarrow>
             (case raw_text_of resp of
                Inl e \<Rightarrow> (Inl e, st)
              | Inr raw_text \<Rightarrow>
                  (case parse_raw_text loads raw_text of
                     Inl e \<Rightarrow> (Inr (Reply 502 False ''something went wrong''), st)
                   | Inr parsed \<Rightarrow>
                       (case canonicalize_record repr parsed of
                          Inl e \<Rightarrow> (Inl e, st)
                        | Inr record \<Rightarrow>
                            (Inr (Reply 200 True ''data extracted and written''),
                             writerow (ensure_csv_header st fields) fields record))))))"
  using assms by (simp add: prefill_def Let_def normalize_prefill_body)

subsection \<open>A concrete deployment\<close>

lemma strip_email: "strip (py ''Please pay'') = py ''Please pay''"
  by (simp add: strip_def isspace_def py_def)

lemma email_nonempty: "py ''Please pay'' \<noteq> []"
  by (simp add: py_def)

lemma forward_to_upstream_default_model:
  "forward_to_upstream \<lparr>OPENAI_API_KEY = Some (py ''sk-test''), OPENROUTER_API_KEY = None\<rparr>
     (\<lambda>url headers body. Inr r)
     (prefill_body email (model_of \<lparr>email_text = e, model = None\<rparr>)) = Inr r"
  by (simp add: forward_to_upstream_def prefill_body_model use_openrouter_of_def model_of_def)
     (simp add: is_openrouter_model_def endswith_def py_def)

lemma raw_text_of_chat:
  "raw_text_of (JObj [(py ''choices'',
                        JArr [JObj [(py ''message'', JObj [(py ''content'', c)])]])]) = Inr c"
  by (simp add: raw_text_of_def getitem_key_def getitem_0_def)

lemma parse_garbage:
  "parse_raw_text (json_loads pf) (JStr (py ''I cannot help''))
     = Inl (ValueError ''Could not parse JSON from model response'')"
  by (simp add: parse_raw_text_def eval_defs)

text \<open>
  Claim C6. The provider answers with status 200 and the content \<open>[1, 2]\<close>. The extractor
  succeeds, so the \<open>except\<close> around it does not fire; the canonicalizer then raises
  \<open>AttributeError\<close> outside that \<open>try\<close>, and the outer \<open>except\<close> catches \<open>httpx.HTTPError\<close>
  only: the exception leaves the handler, and no failure reply is produced.
\<close>

theorem prefill_canonicalize_raises:
  "prefill \<lparr>OPENAI_API_KEY = Some (py ''sk-test''), OPENROUTER_API_KEY = None\<rparr>
     (\<lambda>url headers body.
        Inr \<lparr>status_code = 200,
             body_json = Some (JObj [(py ''choices'',
               JArr [JObj [(py ''message'', JObj [(py ''content'', JStr (py ''[1, 2]''))])]])])\<rparr>)
     (json_loads pf) repr \<lparr>email_text = py ''Please pay'', model = None\<rparr> st
   = (Inl AttributeError, st)"
proof -
  let ?cfg = "\<lparr>OPENAI_API_KEY = Some (py ''sk-test''), OPENROUTER_API_KEY = None\<rparr>"
  let ?payload = "\<lparr>email_text = py ''Please pay'', model = None\<rparr>"
  let ?up = "\<lparr>status_code = 200,
       body_json = Some (JObj [(py ''choices'',
         JArr [JObj [(py ''message'', JObj [(py ''content'', JStr (py ''[1, 2]''))])]])]
         :: 'a json)\<rparr>"
  have p: "parse_raw_text (json_loads pf) (JStr (py ''[1, 2]'')) = Inr (JArr [JInt 1, JInt 2])"
    by (simp add: parse_raw_text_def extract_array)
  have c: "canonicalize_record repr (JArr [JInt 1, JInt 2] :: 'a json) = Inl AttributeError"
    by (simp add: canonicalize_record_def)
  have e: "strip (email_text ?payload) \<noteq> []"
    by (simp add: strip_email email_nonempty)
  have f: "forward_to_upstream ?cfg (\<lambda>url headers body. Inr ?up)
             (prefill_body (strip (email_text ?payload)) (model_of ?payload)) = Inr ?up"
    by (rule forward_to_upstream_default_model)
  show ?thesis
    by (simp add: prefill_after_upstream[OF e f] raw_text_of_chat p c)
qed

text \<open>
  Claim C7. When the call to the provider returns a response whose status is not 200, or
  a response with status 200 whose content fails every extraction strategy, the handler
  answers with the uniform failure payload (\<open>success\<close> false, message \<open>something went
  wrong\<close>; the provider's status in the first case, 502 in the second) and the store is
  what it was: no header, no row.
\<close>

theorem prefill_failure_keeps_store:
  assumes "strip (email_text payload) \<noteq> []"
    and "forward_to_upstream cfg post (prefill_body (strip (email_text payload)) (model_of payload))
           = Inr upstream"
    and "status_code upstream \<noteq> 200
         \<or> (\<exists>resp raw_text e. body_json upstream = Some resp \<and> raw_text_of resp = Inr raw_text
               \<and> parse_raw_text loads raw_text = Inl e)"
  shows "prefill cfg post loads repr payload st =
           (Inr (Reply (if status_code upstream \<noteq> 200 then status_code upstream else 502) False
                   ''something went wrong''), st)"
  using assms(3) by (auto simp: prefill_after_upstream[OF assms(1,2)])

theorem prefill_failure_keeps_store_witness:
  "prefill \<lparr>OPENAI_API_KEY = Some (py ''sk-test''), OPENROUTER_API_KEY = None\<rparr>
     (\<lambda>url headers body.
        Inr \<lparr>status_code = 200,
             body_json = Some (JObj [(py ''choices'',
               JArr [JObj [(py ''message'',
                 JObj [(py ''content'', JStr (py ''I cannot help''))])]])])\<rparr>)
     (json_loads (\<lambda>s::pystr. s)) (\<lambda>v. []) \<lparr>email_text = py ''Please pay'', model = None\<rparr> None
   = (Inr (Reply 502 False ''something went wrong''), None)
   \<and> prefill \<lparr>OPENAI_API_KEY = Some (py ''sk-test''), OPENROUTER_API_KEY = None\<rparr>
       (\<lambda>url headers body. Inr \<lparr>status_code = 429, body_json = None\<rparr>)
       (json_loads (\<lambda>s::pystr. s)) (\<lambda>v. []) \<lparr>email_text = py ''Please pay'', model = None\<rparr> None
     = (Inr (Reply 429 False ''something went wrong''), None)"
proof
  let ?cfg = "\<lparr>OPENAI_API_KEY = Some (py ''sk-test''), OPENROUTER_API_KEY = None\<rparr>"
  let ?payload = "\<lparr>email_text = py ''Please pay'', model = None\<rparr>"
  let ?resp = "JObj [(py ''choices'',
       JArr [JObj [(py ''message'', JObj [(py ''content'', JStr (py ''I cannot help''))])]])]
       :: pystr json"
  let ?up = "\<lparr>status_code = 200, body_json = Some ?resp\<rparr>"
  let ?busy = "\<lparr>status_code = 429, body_json = None :: pystr json option\<rparr>"
  have e: "strip (email_text ?payload) \<noteq> []"
    by (simp add: strip_email email_nonempty)
  have f: "forward_to_upstream ?cfg (\<lambda>url headers body. Inr ?up)
             (prefill_body (strip (email_text ?payload)) (model_of ?payload)) = Inr ?up"
    by (rule forward_to_upstream_default_model)
  have g: "status_code ?up \<noteq> 200
      \<or> (\<exists>resp raw_text e. body_json ?up = Some resp \<and> raw_text_of resp = Inr raw_text
            \<and> parse_raw_text (json_loads (\<lambda>s::pystr. s)) raw_text = Inl e)"
    by (simp add: raw_text_of_chat parse_garbage)
  from prefill_failure_keeps_store[OF e f g, of "\<lambda>v. []" None]
  show "prefill ?cfg (\<lambda>url headers body. Inr ?up) (json_loads (\<lambda>s::pystr. s)) (\<lambda>v. [])
          ?payload None = (Inr (Reply 502 False ''something went wrong''), None)"
    by simp
  have f2: "forward_to_upstream ?cfg (\<lambda>url headers body. Inr ?busy)
             (prefill_body (strip (email_text ?payload)) (model_of ?payload)) = Inr ?busy"
    by (rule forward_to_upstream_default_model)
  have g2: "status_code ?busy \<noteq> 200
      \<or> (\<exists>resp raw_text e. body_json ?busy = Some resp \<and> raw_text_of resp = Inr raw_text
            \<and> parse_raw_text (json_loads (\<lambda>s::pystr. s)) raw_text = Inl e)"
    by simp
  from prefill_failure_keeps_store[OF e f2 g2, of "\<lambda>v. []" None]
  show "prefill ?cfg (\<lambda>url headers body. Inr ?busy) (json_loads (\<lambda>s::pystr. s)) (\<lambda>v. [])
          ?payload None = (Inr (Reply 429 False ''something went wrong''), None)"
    by simp
qed

end
